theory Spec2Isabelle
  imports Complex_Main "HOL-Library.Char_ord" "HOL-Library.List_Lexorder" "HOL-Library.Sublist"
begin

section \<open>The host: filesystem and path library\<close>

text \<open>
  Both programs (\<^verbatim>\<open>app.py\<close> and \<^verbatim>\<open>tagfile-c.py\<close>) reach the operating system through
  \<^verbatim>\<open>os.path\<close>, \<^verbatim>\<open>os.walk\<close> and \<^verbatim>\<open>pathlib.Path\<close>. Those library functions are
  platform dependent and are taken as parameters: one \<open>host\<close> value is a snapshot of the
  filesystem together with the path functions of the platform. A Python \<^verbatim>\<open>str\<close> is a
  \<open>string\<close>, one \<open>char\<close> for each character (the first 256 code points). File sizes are Python integers; a
  modification time is a finite float, of which only the order is used, so it is embedded
  in the reals. Counters that only count upwards from zero are natural numbers.
\<close>

record host =
  normpath :: "string \<Rightarrow> string"
  os_sep :: string
  path_str :: "string \<Rightarrow> string"
  path_join :: "string \<Rightarrow> string \<Rightarrow> string"
  is_file :: "string \<Rightarrow> bool"
  path_exists :: "string \<Rightarrow> bool"
  stat :: "string \<Rightarrow> (int \<times> real) option"
  walk :: "string \<Rightarrow> (string \<times> string list) list"
  now :: real

text \<open>
  \<open>normpath\<close> is \<^verbatim>\<open>os.path.normpath\<close>, \<open>os_sep\<close> is \<^verbatim>\<open>os.sep\<close>, \<open>path_str p\<close> is
  \<^verbatim>\<open>str(Path(p))\<close>, \<open>path_join\<close> is \<^verbatim>\<open>os.path.join\<close>, \<open>is_file p\<close> is
  \<^verbatim>\<open>Path(p).is_file()\<close>, \<open>path_exists p\<close> is \<^verbatim>\<open>Path(p).exists()\<close>. \<open>stat p\<close> is
  \<^verbatim>\<open>os.stat(p)\<close> reduced to \<open>(st_size, st_mtime)\<close>, and \<open>None\<close> where it raises
  \<^verbatim>\<open>OSError\<close>. \<open>walk root\<close> lists the \<open>(dirpath, filenames)\<close> pairs that
  \<^verbatim>\<open>os.walk(root)\<close> yields, in order. \<open>now\<close> is the clock read by
  \<^verbatim>\<open>strftime('%s','now')\<close>. The disk stays as it is during one operation. Failures of
  the database engine itself (a locked or full database file) are not part of the model:
  the exceptions it has are a failing \<^verbatim>\<open>stat\<close> and a violated constraint.
\<close>

datatype py_error = OSError | IntegrityError

definition normalize_path :: "host \<Rightarrow> string \<Rightarrow> string" where
  "normalize_path h p =
     (if p = [] then p
      else let np = normpath h p
           in if length np = 2 \<and> np ! 1 = CHR '':'' then np @ os_sep h else np)"

definition getmtime :: "host \<Rightarrow> string \<Rightarrow> real option" where
  "getmtime h p = map_option snd (stat h p)"

text \<open>
  The nested loops \<^verbatim>\<open>for dp, _, files in os.walk(root): for fn in files:\<close> visit the
  joined paths below, in this order.
\<close>

definition walk_paths :: "host \<Rightarrow> string \<Rightarrow> string list" where
  "walk_paths h rt = concat (map (\<lambda>(dp, fns). map (path_join h dp) fns) (walk h rt))"

section \<open>The catalog: the five tables of the SQLite schema\<close>

record file_row =
  f_id :: int
  f_path :: string
  f_size :: int
  f_mtime :: real
  f_hash :: "string option"

record tag_row =
  t_id :: int
  t_name :: string
  t_ord :: int

record root_row =
  r_path :: string
  r_last_scanned :: real

record catalog =
  files :: "file_row list"
  tags :: "tag_row list"
  file_tags :: "(int \<times> int) list"
  roots :: "root_row list"
  settings :: "(string \<times> string) list"

text \<open>
  A table is the list of its rows in insertion order. A \<open>file_tags\<close> row is the pair
  \<open>(file_id, tag_id)\<close>. The constraints of the schema are predicates on a catalog:
  below, the primary key and the \<^verbatim>\<open>UNIQUE\<close> name of \<open>tags\<close>, and the two foreign keys of
  \<open>file_tags\<close>. For \<open>files\<close> the primary key is \<open>distinct (map f_id (files db))\<close> and the
  \<^verbatim>\<open>UNIQUE\<close> path is \<open>distinct (map f_path (files db))\<close>.
\<close>

definition unique_tags :: "catalog \<Rightarrow> bool" where
  "unique_tags db = (distinct (map t_id (tags db)) \<and> distinct (map t_name (tags db)))"

definition fk_ok :: "catalog \<Rightarrow> bool" where
  "fk_ok db = (fst ` set (file_tags db) \<subseteq> f_id ` set (files db) \<and>
               snd ` set (file_tags db) \<subseteq> t_id ` set (tags db))"

subsection \<open>SQL building blocks\<close>

text \<open>\<^verbatim>\<open>MAX(col)\<close> over the selected rows; \<open>None\<close> is SQL \<^verbatim>\<open>NULL\<close> (no row).\<close>

fun sql_max :: "'a::linorder list \<Rightarrow> 'a option" where
  "sql_max [] = None"
| "sql_max (x # xs) = (case sql_max xs of None \<Rightarrow> Some x | Some m \<Rightarrow> Some (max x m))"

text \<open>
  The id SQLite gives a row inserted into a table with an \<^verbatim>\<open>INTEGER PRIMARY KEY\<close>
  and no id of its own: one more than the largest id in use, and 1 in an empty table.
\<close>

definition next_rowid :: "int list \<Rightarrow> int" where
  "next_rowid ids = (case sql_max ids of None \<Rightarrow> 1 | Some m \<Rightarrow> m + 1)"

text \<open>
  SQLite's \<^verbatim>\<open>LIKE\<close>: in the pattern \<^verbatim>\<open>%\<close> matches any run of characters, \<^verbatim>\<open>_\<close>
  any single character, the character after the \<^verbatim>\<open>ESCAPE\<close> character (when one is
  given) stands for itself, and every other character matches itself; ASCII letters are
  compared without regard to case. An upper-case ASCII letter has bit 5 clear, and
  setting it (adding 32) gives the lower-case letter.
\<close>

fun add32 :: "char \<Rightarrow> char" where
  "add32 (Char b0 b1 b2 b3 b4 b5 b6 b7) = Char b0 b1 b2 b3 b4 True b6 b7"

definition sqlite_tolower :: "char \<Rightarrow> char" where
  "sqlite_tolower c = (if CHR ''A'' \<le> c \<and> c \<le> CHR ''Z'' then add32 c else c)"

definition same_char_nocase :: "char \<Rightarrow> char \<Rightarrow> bool" where
  "same_char_nocase a b = (a = b \<or> sqlite_tolower a = sqlite_tolower b)"

fun sqlite_like :: "char option \<Rightarrow> string \<Rightarrow> string \<Rightarrow> bool" where
  "sqlite_like esc [] s = (s = [])"
| "sqlite_like esc (p # ps) s =
     (if p = CHR ''%'' then
        (sqlite_like esc ps s \<or>
         (case s of [] \<Rightarrow> False | c # t \<Rightarrow> sqlite_like esc (p # ps) t))
      else if Some p = esc then
        (case ps of
           [] \<Rightarrow> False
         | q # qs \<Rightarrow>
             (case s of [] \<Rightarrow> False | c # t \<Rightarrow> same_char_nocase q c \<and> sqlite_like esc qs t))
      else
        (case s of
           [] \<Rightarrow> False
         | c # t \<Rightarrow> (p = CHR ''_'' \<or> same_char_nocase p c) \<and> sqlite_like esc ps t))"

text \<open>
  The patterns the programs build: \<^verbatim>\<open>f"{root}%"\<close> is \<open>rt @ ''%''\<close>. A prefix query
  without \<^verbatim>\<open>ESCAPE\<close> is \<open>like_prefix\<close>.
\<close>

definition like_prefix :: "string \<Rightarrow> string \<Rightarrow> bool" where
  "like_prefix rt p = sqlite_like None (rt @ ''%'') p"

text \<open>
  Reference notion for the prefix queries: \<open>prefix_nocase rt p\<close> says that \<open>p\<close> starts
  with \<open>rt\<close>, character by character, ASCII letters compared without regard to case.
\<close>

fun prefix_nocase :: "string \<Rightarrow> string \<Rightarrow> bool" where
  "prefix_nocase [] p = True"
| "prefix_nocase (c # cs) [] = False"
| "prefix_nocase (c # cs) (d # ds) = (same_char_nocase c d \<and> prefix_nocase cs ds)"

text \<open>
  \<^verbatim>\<open>DELETE FROM files WHERE ...\<close>: foreign keys are switched on by \<^verbatim>\<open>get_conn\<close>, so
  the \<open>file_tags\<close> rows of a deleted file go with it (\<^verbatim>\<open>ON DELETE CASCADE\<close>).
\<close>

definition delete_files_where :: "(file_row \<Rightarrow> bool) \<Rightarrow> catalog \<Rightarrow> catalog" where
  "delete_files_where P db =
     db\<lparr>files := filter (\<lambda>r. \<not> P r) (files db),
        file_tags := filter (\<lambda>ft. fst ft \<notin> f_id ` set (filter P (files db))) (file_tags db)\<rparr>"

definition delete_tags_where :: "(tag_row \<Rightarrow> bool) \<Rightarrow> catalog \<Rightarrow> catalog" where
  "delete_tags_where P db =
     db\<lparr>tags := filter (\<lambda>t. \<not> P t) (tags db),
        file_tags := filter (\<lambda>ft. snd ft \<notin> t_id ` set (filter P (tags db))) (file_tags db)\<rparr>"

section \<open>The store operations of app.py\<close>

subsection \<open>upsert_file\<close>

text \<open>
  \<^verbatim>\<open>INSERT INTO files(path,size,mtime,hash) VALUES(?,?,?,NULL)
  ON CONFLICT(path) DO UPDATE SET size=excluded.size, mtime=excluded.mtime\<close>:
  a row with this path is updated where it stands; otherwise a new row is appended under
  the next id.
\<close>

definition sql_upsert_file :: "string \<Rightarrow> int \<Rightarrow> real \<Rightarrow> file_row list \<Rightarrow> file_row list" where
  "sql_upsert_file full sz mt rows =
     (if full \<in> f_path ` set rows
      then map (\<lambda>r. if f_path r = full then r\<lparr>f_size := sz, f_mtime := mt\<rparr> else r) rows
      else rows @ [\<lparr>f_id = next_rowid (map f_id rows), f_path = full, f_size = sz,
                    f_mtime = mt, f_hash = None\<rparr>])"

text \<open>
  A path that is not a regular file is skipped in silence; \<^verbatim>\<open>p.stat()\<close> raising
  leaves the catalog as it was, the exception going to the caller.
\<close>

definition upsert_file :: "host \<Rightarrow> string \<Rightarrow> catalog \<Rightarrow> py_error + catalog" where
  "upsert_file h path db =
     (if \<not> is_file h path then Inr db
      else case stat h path of
             None \<Rightarrow> Inl OSError
           | Some (sz, mt) \<Rightarrow>
               let full = normalize_path h (path_str h path)
               in Inr (db\<lparr>files := sql_upsert_file full sz mt (files db)\<rparr>))"

subsection \<open>remove_missing_under\<close>

text \<open>
  The rows are fetched first; the loop then deletes, by id, each fetched row whose
  path is not on disk, and counts it.
\<close>

fun remove_missing_loop :: "host \<Rightarrow> file_row list \<Rightarrow> catalog \<Rightarrow> nat \<Rightarrow> catalog \<times> nat" where
  "remove_missing_loop h [] db removed = (db, removed)"
| "remove_missing_loop h (r # rows) db removed =
     (if \<not> path_exists h (f_path r)
      then remove_missing_loop h rows (delete_files_where (\<lambda>x. f_id x = f_id r) db) (removed + 1)
      else remove_missing_loop h rows db removed)"

definition remove_missing_under :: "host \<Rightarrow> string \<Rightarrow> catalog \<Rightarrow> catalog \<times> nat" where
  "remove_missing_under h rt0 db =
     (let rt = normalize_path h rt0;
          rows = filter (\<lambda>r. like_prefix rt (f_path r)) (files db)
      in remove_missing_loop h rows db 0)"

subsection \<open>ensure_tag\<close>

text \<open>
  \<^verbatim>\<open>str.strip()\<close> removes the whitespace characters at both ends; below are the
  whitespace characters of Python among the first 256 code points.
\<close>

definition py_isspace :: "char \<Rightarrow> bool" where
  "py_isspace c = ((of_char c :: nat) \<in> {9, 10, 11, 12, 13, 28, 29, 30, 31, 32, 133, 160})"

definition strip :: "string \<Rightarrow> string" where
  "strip s = rev (dropWhile py_isspace (rev (dropWhile py_isspace s)))"

text \<open>\<^verbatim>\<open>SELECT id FROM tags WHERE name=?\<close> followed by \<^verbatim>\<open>fetchone()\<close>.\<close>

definition tag_id_by_name :: "string \<Rightarrow> tag_row list \<Rightarrow> int option" where
  "tag_id_by_name name rows = map_option t_id (find (\<lambda>t. t_name t = name) rows)"

text \<open>\<^verbatim>\<open>INSERT OR IGNORE INTO tags(name,ord) VALUES(?,?)\<close>: nothing happens when the name is taken.\<close>

definition sql_insert_tag_or_ignore :: "string \<Rightarrow> int \<Rightarrow> tag_row list \<Rightarrow> tag_row list" where
  "sql_insert_tag_or_ignore name ord rows =
     (if name \<in> t_name ` set rows then rows
      else rows @ [\<lparr>t_id = next_rowid (map t_id rows), t_name = name, t_ord = ord\<rparr>])"

definition ensure_tag :: "string \<Rightarrow> catalog \<Rightarrow> int option \<times> catalog" where
  "ensure_tag name0 db =
     (let name = strip name0
      in if name = [] then (None, db)
         else let nxt = (case sql_max (map t_ord (tags db)) of None \<Rightarrow> 0 | Some m \<Rightarrow> m) + 1;
                  rows = sql_insert_tag_or_ignore name nxt (tags db)
              in (tag_id_by_name name rows, db\<lparr>tags := rows\<rparr>))"

subsection \<open>add_root, list_roots, remove_root\<close>



definition remove_root :: "host \<Rightarrow> string \<Rightarrow> catalog \<Rightarrow> catalog" where
  "remove_root h path0 db =
     (let path = normalize_path h path0;
          db1 = db\<lparr>roots := filter (\<lambda>r. r_path r \<noteq> path) (roots db)\<rparr>
      in delete_files_where (\<lambda>r. like_prefix path (f_path r)) db1)"

subsection \<open>The counting queries\<close>

text \<open>\<^verbatim>\<open>s.replace(c, rep)\<close> for a pattern \<open>c\<close> of one character.\<close>

definition replace_char :: "char \<Rightarrow> string \<Rightarrow> string \<Rightarrow> string" where
  "replace_char c rep s = concat (map (\<lambda>x. if x = c then rep else [x]) s)"

definition backslash :: char where
  "backslash = CHR 0x5C"

definition like_escape :: "string \<Rightarrow> string" where
  "like_escape rt =
     replace_char CHR ''_'' [backslash, CHR ''_'']
       (replace_char CHR ''%'' [backslash, CHR ''%'']
          (replace_char backslash [backslash, backslash] rt))"

definition count_files_under :: "host \<Rightarrow> string \<Rightarrow> catalog \<Rightarrow> nat" where
  "count_files_under h rt0 db =
     (let rt = normalize_path h rt0;
          esc = like_escape rt
      in length (filter (\<lambda>r. sqlite_like (Some backslash) (esc @ ''%'') (f_path r)) (files db)))"

definition db_count_and_max_mtime_under :: "host \<Rightarrow> string \<Rightarrow> catalog \<Rightarrow> nat \<times> real" where
  "db_count_and_max_mtime_under h rt0 db =
     (let rt = normalize_path h rt0;
          rows = filter (\<lambda>r. like_prefix rt (f_path r)) (files db)
      in (length rows, case sql_max (map f_mtime rows) of None \<Rightarrow> 0 | Some m \<Rightarrow> m))"

subsection \<open>build_query and list_files\<close>

record listing =
  l_id :: int
  l_path :: string
  l_size :: int
  l_mtime :: real
  l_tags :: "string option"

text \<open>
  \<^verbatim>\<open>build_query\<close> writes one \<^verbatim>\<open>JOIN file_tags ft<i> ON ft<i>.file_id=f.id AND
  ft<i>.tag_id=?\<close> for each selected tag id, and puts each id at the front of the
  parameter list: the aliases \<open>ft0, ft1, ...\<close> are bound to the ids in reverse order. A
  join keeps, for each row on its left, one copy for every matching \<open>file_tags\<close> row.
\<close>

definition join_params :: "int list \<Rightarrow> int list" where
  "join_params tag_ids = fold (\<lambda>tid params. tid # params) tag_ids []"

fun join_file_tags :: "int list \<Rightarrow> (int \<times> int) list \<Rightarrow> file_row list \<Rightarrow> file_row list" where
  "join_file_tags [] fts rows = rows"
| "join_file_tags (tid # tids) fts rows =
     join_file_tags tids fts
       (concat (map (\<lambda>f. map (\<lambda>_. f) (filter (\<lambda>ft. fst ft = f_id f \<and> snd ft = tid) fts)) rows))"

text \<open>The \<^verbatim>\<open>WHERE\<close> conditions of \<^verbatim>\<open>build_query\<close>: the search text and the only-tagged flag.\<close>

definition build_query_where :: "string \<Rightarrow> bool \<Rightarrow> catalog \<Rightarrow> file_row \<Rightarrow> bool" where
  "build_query_where search_text only_tagged db f =
     ((search_text = [] \<or> sqlite_like None (''%'' @ search_text @ ''%'') (f_path f)) \<and>
      (\<not> only_tagged \<or> f_id f \<in> fst ` set (file_tags db)))"

text \<open>
  \<^verbatim>\<open>GROUP_CONCAT(t.name, ', ')\<close> over the tags joined to one file: \<^verbatim>\<open>NULL\<close> when there
  is none. SQL leaves the order of the names open; the model takes them in the order of
  the \<open>file_tags\<close> rows.
\<close>

definition group_concat :: "string \<Rightarrow> string list \<Rightarrow> string option" where
  "group_concat sep xs =
     (case xs of [] \<Rightarrow> None | x # ys \<Rightarrow> Some (x @ concat (map (\<lambda>y. sep @ y) ys)))"

definition tag_names_of :: "catalog \<Rightarrow> int \<Rightarrow> string list" where
  "tag_names_of db fid =
     concat (map (\<lambda>ft. map t_name (filter (\<lambda>t. t_id t = snd ft) (tags db)))
                 (filter (\<lambda>ft. fst ft = fid) (file_tags db)))"

definition select_listing :: "catalog \<Rightarrow> file_row \<Rightarrow> listing" where
  "select_listing db f =
     \<lparr>l_id = f_id f, l_path = f_path f, l_size = f_size f, l_mtime = f_mtime f,
      l_tags = group_concat '', '' (tag_names_of db (f_id f))\<rparr>"

definition list_files ::
  "host \<Rightarrow> string \<Rightarrow> int list \<Rightarrow> bool \<Rightarrow> string option \<Rightarrow> catalog \<Rightarrow> listing list" where
  "list_files h search_text tag_ids only_tagged root_prefix db =
     (let joined = join_file_tags (join_params tag_ids) (file_tags db) (files db);
          kept = filter (build_query_where search_text only_tagged db) joined;
          kept' = (case root_prefix of
                     None \<Rightarrow> kept
                   | Some rp \<Rightarrow>
                       if rp = [] then kept
                       else filter (\<lambda>f. like_prefix (normalize_path h rp) (f_path f)) kept)
      in map (select_listing db) (sort_key f_path kept'))"

subsection \<open>MainUI._rename_or_merge_tag\<close>

datatype dialog = Merged_information | Duplicate_warning

text \<open>
  \<^verbatim>\<open>INSERT OR IGNORE INTO file_tags(file_id, tag_id) SELECT file_id, ? FROM file_tags
  WHERE tag_id=?\<close>: a pair that is already in the table is skipped. A pair that is
  inserted must satisfy both foreign keys, or the statement raises
  \<^verbatim>\<open>sqlite3.IntegrityError\<close>, which the merge branch does not catch: nothing is committed.
\<close>

fun insert_pairs_or_ignore :: "(int \<times> int) list \<Rightarrow> (int \<times> int) list \<Rightarrow> (int \<times> int) list" where
  "insert_pairs_or_ignore [] table = table"
| "insert_pairs_or_ignore (c # cs) table =
     insert_pairs_or_ignore cs (if c \<in> set table then table else table @ [c])"

definition fk_row_ok :: "catalog \<Rightarrow> int \<times> int \<Rightarrow> bool" where
  "fk_row_ok db ft = (fst ft \<in> f_id ` set (files db) \<and> snd ft \<in> t_id ` set (tags db))"

definition rename_or_merge_tag ::
  "int \<Rightarrow> string \<Rightarrow> catalog \<Rightarrow> py_error + (dialog option \<times> catalog)" where
  "rename_or_merge_tag old_tid new_name db =
     (if new_name = [] then Inr (None, db)
      else case tag_id_by_name new_name (tags db) of
        Some new_tid \<Rightarrow>
          if new_tid = old_tid then Inr (None, db)
          else
            let cands = map (\<lambda>ft. (fst ft, new_tid)) (filter (\<lambda>ft. snd ft = old_tid) (file_tags db));
                table = insert_pairs_or_ignore cands (file_tags db)
            in if list_ex (\<lambda>ft. \<not> fk_row_ok db ft) (drop (length (file_tags db)) table)
               then Inl IntegrityError
               else
                 let db1 = db\<lparr>file_tags := filter (\<lambda>ft. snd ft \<noteq> old_tid) table\<rparr>;
                     db2 = delete_tags_where (\<lambda>t. t_id t = old_tid) db1
                 in Inr (Some Merged_information, db2)
      | None \<Rightarrow>
          if old_tid \<in> t_id ` set (tags db) \<and>
             new_name \<in> t_name ` set (filter (\<lambda>t. t_id t \<noteq> old_tid) (tags db))
          then Inr (Some Duplicate_warning, db)
          else Inr (None, db\<lparr>tags := map (\<lambda>t. if t_id t = old_tid then t\<lparr>t_name := new_name\<rparr> else t)
                                        (tags db)\<rparr>))"

section \<open>The reconciler of app.py\<close>

subsection \<open>Fingerprint of the disk\<close>


text \<open>
  \<^verbatim>\<open>walk_count_and_max_mtime\<close>: every file name counts; a file whose
  \<^verbatim>\<open>os.path.getmtime\<close> raises leaves the maximum as it is.
\<close>

fun count_and_max_loop :: "host \<Rightarrow> string list \<Rightarrow> nat \<Rightarrow> real \<Rightarrow> nat \<times> real" where
  "count_and_max_loop h [] tot max_m = (tot, max_m)"
| "count_and_max_loop h (p # ps) tot max_m =
     count_and_max_loop h ps (tot + 1)
       (case getmtime h p of
          None \<Rightarrow> max_m
        | Some mt \<Rightarrow> if mt > max_m then mt else max_m)"

definition walk_count_and_max_mtime :: "host \<Rightarrow> string \<Rightarrow> nat \<times> real" where
  "walk_count_and_max_mtime h rt0 =
     (let rt = normalize_path h rt0 in count_and_max_loop h (walk_paths h rt) 0 0)"

subsection \<open>Signals, slots and the walk\<close>

text \<open>
  The Qt signals of \<^verbatim>\<open>MainUI\<close>, in the order they are emitted. The only slot that
  touches the busy flag is \<^verbatim>\<open>_on_scan_finished\<close>, which clears it. The store calls a
  scan makes are logged beside the signals: the log is not data of the program, it
  records which calls the program made and whether an upsert raised.
\<close>

datatype signal = Scan_started nat | Progress_tick nat nat | Scan_finished

datatype store_call =
    Add_root_call string
  | Upsert_call string bool
  | Remove_missing_call string nat

fun slot_scan_running :: "signal \<Rightarrow> bool \<Rightarrow> bool" where
  "slot_scan_running Scan_finished running = False"
| "slot_scan_running (Scan_started tot) running = running"
| "slot_scan_running (Progress_tick processed tot) running = running"






subsection \<open>index_selected_root and rescan_all_roots\<close>






text \<open>
  The short-circuit test of \<^verbatim>\<open>index_selected_root\<close>:
  \<^verbatim>\<open>fs_total == db_total and (db_max_m >= fs_max_m)\<close>.
\<close>

definition fingerprint_current :: "host \<Rightarrow> string \<Rightarrow> catalog \<Rightarrow> bool" where
  "fingerprint_current h rt db =
     (let fs = walk_count_and_max_mtime h rt;
          dbs = db_count_and_max_mtime_under h rt db
      in fst fs = fst dbs \<and> snd dbs \<ge> snd fs)"



section \<open>The store of tagfile-c.py (class DBManager)\<close>

text \<open>
  \<^verbatim>\<open>tagfile-c.py\<close> moves the store functions into the class \<^verbatim>\<open>DBManager\<close>. Its
  \<^verbatim>\<open>MainUI._add_root\<close>, \<^verbatim>\<open>_list_roots\<close>, \<^verbatim>\<open>_remove_root\<close> and
  \<^verbatim>\<open>_rename_or_merge_tag\<close> run the same statements as \<open>add_root\<close>, \<open>list_roots\<close>,
  \<open>remove_root\<close> and \<open>rename_or_merge_tag\<close> above, which stand for both files. The
  methods below are translated from the class on their own.
\<close>

definition dbm_upsert_file :: "host \<Rightarrow> string \<Rightarrow> catalog \<Rightarrow> py_error + catalog" where
  "dbm_upsert_file h path db =
     (if \<not> is_file h path then Inr db
      else case stat h path of
             None \<Rightarrow> Inl OSError
           | Some (sz, mt) \<Rightarrow>
               Inr (db\<lparr>files := sql_upsert_file (normalize_path h (path_str h path)) sz mt (files db)\<rparr>))"

text \<open>
  \<^verbatim>\<open>count_and_stats(root, is_disk)\<close> answers for the disk or for the catalog. On disk
  each directory adds \<^verbatim>\<open>len(files)\<close> to the count before its files are looked at.
\<close>

fun max_mtime_loop :: "host \<Rightarrow> string list \<Rightarrow> real \<Rightarrow> real" where
  "max_mtime_loop h [] max_m = max_m"
| "max_mtime_loop h (p # ps) max_m =
     max_mtime_loop h ps
       (case getmtime h p of
          None \<Rightarrow> max_m
        | Some mt \<Rightarrow> if mt > max_m then mt else max_m)"

fun disk_stats_loop :: "host \<Rightarrow> (string \<times> string list) list \<Rightarrow> nat \<Rightarrow> real \<Rightarrow> nat \<times> real" where
  "disk_stats_loop h [] tot max_m = (tot, max_m)"
| "disk_stats_loop h ((dp, fns) # rest) tot max_m =
     disk_stats_loop h rest (tot + length fns) (max_mtime_loop h (map (path_join h dp) fns) max_m)"

definition dbm_count_and_stats :: "host \<Rightarrow> string option \<Rightarrow> bool \<Rightarrow> catalog \<Rightarrow> nat \<times> real" where
  "dbm_count_and_stats h root_opt is_disk db =
     (let rt0 = (case root_opt of None \<Rightarrow> [] | Some r \<Rightarrow> r)
      in if is_disk then
           (if rt0 = [] then (0, 0)
            else disk_stats_loop h (walk h (normalize_path h rt0)) 0 0)
         else
           let rows = (if rt0 \<noteq> []
                       then filter (\<lambda>r. like_prefix (normalize_path h rt0) (f_path r)) (files db)
                       else files db)
           in (length rows, case sql_max (map f_mtime rows) of None \<Rightarrow> 0 | Some m \<Rightarrow> m))"

definition dbm_remove_missing_under :: "host \<Rightarrow> string \<Rightarrow> catalog \<Rightarrow> catalog \<times> nat" where
  "dbm_remove_missing_under h rt0 db =
     (let rt = normalize_path h rt0;
          rows = filter (\<lambda>r. like_prefix rt (f_path r)) (files db)
      in remove_missing_loop h rows db 0)"

definition dbm_ensure_tag :: "string \<Rightarrow> catalog \<Rightarrow> int option \<times> catalog" where
  "dbm_ensure_tag name0 db =
     (let name = strip name0
      in if name = [] then (None, db)
         else let nxt = (case sql_max (map t_ord (tags db)) of None \<Rightarrow> 0 | Some m \<Rightarrow> m) + 1;
                  rows = sql_insert_tag_or_ignore name nxt (tags db)
              in (tag_id_by_name name rows, db\<lparr>tags := rows\<rparr>))"

text \<open>
  \<^verbatim>\<open>DBManager.list_files\<close> collects all its \<^verbatim>\<open>WHERE\<close> conditions in one list, the
  root prefix last.
\<close>

definition dbm_list_files ::
  "host \<Rightarrow> string \<Rightarrow> int list \<Rightarrow> bool \<Rightarrow> string option \<Rightarrow> catalog \<Rightarrow> listing list" where
  "dbm_list_files h search_text tag_ids only_tagged root_prefix db =
     (let joined = join_file_tags (join_params tag_ids) (file_tags db) (files db);
          cond = (\<lambda>f. (search_text = [] \<or> sqlite_like None (''%'' @ search_text @ ''%'') (f_path f)) \<and>
                      (\<not> only_tagged \<or> f_id f \<in> fst ` set (file_tags db)) \<and>
                      (case root_prefix of
                         None \<Rightarrow> True
                       | Some rp \<Rightarrow> rp = [] \<or> like_prefix (normalize_path h rp) (f_path f)))
      in map (select_listing db) (sort_key f_path (filter cond joined)))"

text \<open>The short-circuit test of \<^verbatim>\<open>MainUI.index_selected_root\<close> in \<^verbatim>\<open>tagfile-c.py\<close>.\<close>

definition dbm_fingerprint_current :: "host \<Rightarrow> string \<Rightarrow> catalog \<Rightarrow> bool" where
  "dbm_fingerprint_current h rt db =
     (let fs = dbm_count_and_stats h (Some rt) True db;
          dbs = dbm_count_and_stats h (Some rt) False db
      in fst fs = fst dbs \<and> snd dbs \<ge> snd fs)"

section \<open>Reading the trace of a scan\<close>

text \<open>
  The upsert attempts in a call log, the progress ticks in a signal list, and when
  \<^verbatim>\<open>upsert_file\<close> raises: on a regular file whose \<^verbatim>\<open>stat\<close> fails. \<open>expected_ticks\<close>
  lists the ticks of a counter that runs through \<open>1, ..., n\<close> without a gap.
\<close>

fun upsert_calls :: "store_call list \<Rightarrow> (string \<times> bool) list" where
  "upsert_calls [] = []"
| "upsert_calls (Upsert_call p raised # cs) = (p, raised) # upsert_calls cs"
| "upsert_calls (Add_root_call rt # cs) = upsert_calls cs"
| "upsert_calls (Remove_missing_call rt removed # cs) = upsert_calls cs"

fun progress_ticks :: "signal list \<Rightarrow> (nat \<times> nat) list" where
  "progress_ticks [] = []"
| "progress_ticks (Progress_tick processed shown # sigs) = (processed, shown) # progress_ticks sigs"
| "progress_ticks (Scan_started shown # sigs) = progress_ticks sigs"
| "progress_ticks (Scan_finished # sigs) = progress_ticks sigs"


text \<open>The ticks emitted while the counter goes from \<open>n\<close> to \<open>n + len\<close>.\<close>

definition ticks_from :: "(nat \<Rightarrow> bool) \<Rightarrow> nat \<Rightarrow> nat \<Rightarrow> nat \<Rightarrow> signal list" where
  "ticks_from tick shown n len =
     map (\<lambda>k. Progress_tick k shown) (filter tick [Suc n..<Suc (n + len)])"



section \<open>Fixtures\<close>

text \<open>
  A POSIX host on which every path below is already in normal form, so that
  \<^verbatim>\<open>os.path.normpath\<close> and \<^verbatim>\<open>str(Path(.))\<close> return their argument. The disk holds
  \<^verbatim>\<open>/data/a/x.txt\<close>, \<^verbatim>\<open>/data/a/y.txt\<close> and \<^verbatim>\<open>/data/ab/z.txt\<close>.
\<close>

definition demo_stat :: "string \<Rightarrow> (int \<times> real) option" where
  "demo_stat p =
     (if p = ''/data/a/x.txt'' then Some (10, 100)
      else if p = ''/data/a/y.txt'' then Some (20, 200)
      else if p = ''/data/ab/z.txt'' then Some (30, 300)
      else None)"

definition demo_walk :: "string \<Rightarrow> (string \<times> string list) list" where
  "demo_walk rt =
     (if rt = ''/data/a'' then [(''/data/a'', [''x.txt'', ''y.txt''])]
      else if rt = ''/data/ab'' then [(''/data/ab'', [''z.txt''])]
      else [])"

definition demo_host :: host where
  "demo_host =
     \<lparr>normpath = (\<lambda>p. p), os_sep = ''/'', path_str = (\<lambda>p. p),
      path_join = (\<lambda>dp fn. dp @ ''/'' @ fn),
      is_file = (\<lambda>p. p \<in> {''/data/a/x.txt'', ''/data/a/y.txt'', ''/data/ab/z.txt''}),
      path_exists = (\<lambda>p. p \<in> {''/data/a/x.txt'', ''/data/a/y.txt'', ''/data/ab/z.txt''}),
      stat = demo_stat, walk = demo_walk, now = 1000\<rparr>"

text \<open>The same host at a moment when \<^verbatim>\<open>/data/a/x.txt\<close> cannot be read: its \<^verbatim>\<open>stat\<close> raises.\<close>

definition racy_stat :: "string \<Rightarrow> (int \<times> real) option" where
  "racy_stat p = (if p = ''/data/a/x.txt'' then None else demo_stat p)"

definition racy_host :: host where
  "racy_host = demo_host\<lparr>stat := racy_stat\<rparr>"

text \<open>
  A catalog with the three files, the tags \<^verbatim>\<open>todo\<close> on files 1 and 2 and \<^verbatim>\<open>later\<close> on
  files 2 and 3, and the roots \<^verbatim>\<open>/data/a\<close> and \<^verbatim>\<open>/data/ab\<close>. The row of
  \<^verbatim>\<open>y.txt\<close> is older than the file on disk.
\<close>

definition demo_files :: "file_row list" where
  "demo_files =
     [\<lparr>f_id = 1, f_path = ''/data/a/x.txt'', f_size = 10, f_mtime = 100, f_hash = None\<rparr>,
      \<lparr>f_id = 2, f_path = ''/data/a/y.txt'', f_size = 7, f_mtime = 150, f_hash = None\<rparr>,
      \<lparr>f_id = 3, f_path = ''/data/ab/z.txt'', f_size = 30, f_mtime = 300, f_hash = None\<rparr>]"

definition demo_tags :: "tag_row list" where
  "demo_tags =
     [\<lparr>t_id = 1, t_name = ''todo'', t_ord = 1\<rparr>, \<lparr>t_id = 2, t_name = ''later'', t_ord = 2\<rparr>]"

definition demo_catalog :: catalog where
  "demo_catalog =
     \<lparr>files = demo_files, tags = demo_tags,
      file_tags = [(1, 1), (2, 1), (2, 2), (3, 2)],
      roots = [\<lparr>r_path = ''/data/a'', r_last_scanned = 0\<rparr>,
               \<lparr>r_path = ''/data/ab'', r_last_scanned = 0\<rparr>],
      settings = []\<rparr>"

text \<open>A catalog with one file whose path does not start with the root \<^verbatim>\<open>/data/a_b\<close>.\<close>

definition wildcard_catalog :: catalog where
  "wildcard_catalog =
     \<lparr>files = [\<lparr>f_id = 1, f_path = ''/data/aXb/f.txt'', f_size = 1, f_mtime = 5, f_hash = None\<rparr>],
      tags = [], file_tags = [],
      roots = [\<lparr>r_path = ''/data/a_b'', r_last_scanned = 0\<rparr>],
      settings = []\<rparr>"

section \<open>Facts about the fixtures\<close>

lemmas demo_defs =
  demo_host_def demo_stat_def demo_walk_def racy_host_def racy_stat_def
  demo_catalog_def demo_files_def demo_tags_def wildcard_catalog_def
  normalize_path_def

lemmas like_defs = like_prefix_def same_char_nocase_def sqlite_tolower_def

section \<open>upsert_file\<close>

lemma filter_key_singleton:
  "distinct (map f xs) \<Longrightarrow> x \<in> set xs \<Longrightarrow> filter (\<lambda>y. f y = f x) xs = [x]"
proof (induction xs)
  case Nil
  then show ?case by simp
next
  case (Cons a xs)
  show ?case
  proof (cases "a = x")
    case True
    with Cons.prems have "\<forall>y\<in>set xs. f y \<noteq> f x" by (auto simp: image_iff)
    then have "filter (\<lambda>y. f y = f x) xs = []" by (simp add: filter_empty_conv)
    with True show ?thesis by simp
  next
    case False
    with Cons.prems have "x \<in> set xs" "f a \<noteq> f x" "distinct (map f xs)" by (auto simp: image_iff)
    with Cons.IH show ?thesis by simp
  qed
qed

lemma upd_path [simp]:
  "f_path (if f_path r = full then r\<lparr>f_size := sz, f_mtime := mt\<rparr> else r) = f_path r"
  by simp

lemma sql_upsert_file_paths:
  "f_path ` set (sql_upsert_file full sz mt rows) = insert full (f_path ` set rows)"
proof (cases "full \<in> f_path ` set rows")
  case True
  have "map f_path (map (\<lambda>r. if f_path r = full then r\<lparr>f_size := sz, f_mtime := mt\<rparr> else r) rows)
        = map f_path rows"
    by (induction rows) auto
  then have "f_path ` set (map (\<lambda>r. if f_path r = full then r\<lparr>f_size := sz, f_mtime := mt\<rparr> else r) rows)
        = f_path ` set rows"
    by (metis set_map)
  with True show ?thesis by (auto simp: sql_upsert_file_def)
next
  case False
  then show ?thesis by (simp add: sql_upsert_file_def)
qed

lemma upd_twice:
  "map (\<lambda>r. if f_path r = full then r\<lparr>f_size := sz, f_mtime := mt\<rparr> else r)
     (map (\<lambda>r. if f_path r = full then r\<lparr>f_size := sz, f_mtime := mt\<rparr> else r) rows) =
   map (\<lambda>r. if f_path r = full then r\<lparr>f_size := sz, f_mtime := mt\<rparr> else r) rows"
  by (induction rows) auto

lemma upd_absent:
  "full \<notin> f_path ` set rows \<Longrightarrow>
   map (\<lambda>r. if f_path r = full then r\<lparr>f_size := sz, f_mtime := mt\<rparr> else r) rows = rows"
  by (induction rows) auto

lemma sql_upsert_file_idem:
  "sql_upsert_file full sz mt (sql_upsert_file full sz mt rows) = sql_upsert_file full sz mt rows"
proof -
  have "full \<in> f_path ` set (sql_upsert_file full sz mt rows)"
    by (simp add: sql_upsert_file_paths)
  then have "sql_upsert_file full sz mt (sql_upsert_file full sz mt rows) =
      map (\<lambda>r. if f_path r = full then r\<lparr>f_size := sz, f_mtime := mt\<rparr> else r)
        (sql_upsert_file full sz mt rows)"
    by (simp add: sql_upsert_file_def[of full sz mt "sql_upsert_file full sz mt rows"])
  also have "\<dots> = sql_upsert_file full sz mt rows"
    by (cases "full \<in> f_path ` set rows") (simp_all add: sql_upsert_file_def upd_twice upd_absent)
  finally show ?thesis .
qed

lemma sql_upsert_file_row:
  assumes "distinct (map f_path rows)"
  shows "map (\<lambda>r. (f_size r, f_mtime r))
           (filter (\<lambda>r. f_path r = full) (sql_upsert_file full sz mt rows)) = [(sz, mt)]"
proof (cases "full \<in> f_path ` set rows")
  case True
  then obtain r where r: "r \<in> set rows" "f_path r = full" by auto
  from filter_key_singleton[OF assms r(1)] r(2)
  have one: "filter (\<lambda>y. f_path y = full) rows = [r]" by simp
  have "filter (\<lambda>r. f_path r = full)
          (map (\<lambda>r. if f_path r = full then r\<lparr>f_size := sz, f_mtime := mt\<rparr> else r) rows) =
        map (\<lambda>r. r\<lparr>f_size := sz, f_mtime := mt\<rparr>) (filter (\<lambda>y. f_path y = full) rows)"
    by (induction rows) auto
  with True one show ?thesis by (simp add: sql_upsert_file_def)
next
  case False
  then have "filter (\<lambda>r. f_path r = full) rows = []"
    by (auto simp: filter_empty_conv)
  with False show ?thesis by (simp add: sql_upsert_file_def)
qed

text \<open>
  Claim C3 (idempotence of \<^verbatim>\<open>upsert_file\<close>). When \<open>p\<close> is a regular file whose
  \<^verbatim>\<open>stat\<close> gives size \<open>sz\<close> and modification time \<open>mt\<close>, and the paths of the catalog
  are unique as the schema demands, the first call returns a catalog \<open>db1\<close>, a second
  call on \<open>db1\<close> with the disk unchanged returns \<open>db1\<close> again, and \<open>db1\<close> holds exactly
  one row for the normalized path, with size \<open>sz\<close> and modification time \<open>mt\<close>.
\<close>

theorem upsert_file_idempotent:
  assumes "is_file h p" and "stat h p = Some (sz, mt)" and "distinct (map f_path (files db))"
  shows "\<exists>db1. upsert_file h p db = Inr db1 \<and> upsert_file h p db1 = Inr db1 \<and>
           map (\<lambda>r. (f_size r, f_mtime r))
             (filter (\<lambda>r. f_path r = normalize_path h (path_str h p)) (files db1)) = [(sz, mt)]"
  using assms
  by (simp add: upsert_file_def Let_def sql_upsert_file_idem sql_upsert_file_row)

theorem upsert_file_idempotent_witness:
  "is_file demo_host ''/data/a/y.txt'' \<and>
   stat demo_host ''/data/a/y.txt'' = Some (20, 200) \<and>
   distinct (map f_path (files demo_catalog)) \<and>
   (\<exists>db1. upsert_file demo_host ''/data/a/y.txt'' demo_catalog = Inr db1 \<and>
          upsert_file demo_host ''/data/a/y.txt'' db1 = Inr db1 \<and>
          map (\<lambda>r. (f_size r, f_mtime r))
            (filter (\<lambda>r. f_path r = ''/data/a/y.txt'') (files db1)) = [(20, 200)])"
  using upsert_file_idempotent [of demo_host "''/data/a/y.txt''" 20 200 demo_catalog]
  by (simp add: demo_defs)

section \<open>remove_root\<close>

lemma same_char_nocase_refl [simp]: "same_char_nocase c c"
  by (simp add: same_char_nocase_def)

lemma like_percent_all: "sqlite_like esc ''%'' s"
  by (induction s) auto




lemma files_delete_files_where [simp]:
  "files (delete_files_where P db) = filter (\<lambda>r. \<not> P r) (files db)"
  by (simp add: delete_files_where_def)

lemma files_remove_root:
  "files (remove_root h path0 db) =
   filter (\<lambda>r. \<not> like_prefix (normalize_path h path0) (f_path r)) (files db)"
  by (simp add: remove_root_def Let_def)




section \<open>The short circuit of index_selected_root\<close>

lemma count_and_max_loop_count:
  "fst (count_and_max_loop h ps tot max_m) = tot + length ps"
  by (induction ps arbitrary: tot max_m) auto

text \<open>The disk count of the fingerprint is the number of files the walk visits.\<close>

lemma walk_count_is_length:
  "fst (walk_count_and_max_mtime h rt) = length (walk_paths h (normalize_path h rt))"
  by (simp add: walk_count_and_max_mtime_def Let_def count_and_max_loop_count)



section \<open>list_files\<close>

lemma join_params_rev: "join_params tag_ids = rev tag_ids"
proof -
  have "fold (\<lambda>tid params. tid # params) xs acc = rev xs @ acc" for xs acc :: "int list"
    by (induction xs arbitrary: acc) auto
  then show ?thesis by (simp add: join_params_def)
qed

lemma set_join_file_tags:
  "set (join_file_tags tids fts rows) =
   {f \<in> set rows. \<forall>tid \<in> set tids. (f_id f, tid) \<in> set fts}"
proof (induction tids arbitrary: rows)
  case Nil
  show ?case by simp
next
  case (Cons tid tids)
  have "set (concat (map (\<lambda>f. map (\<lambda>_. f) (filter (\<lambda>ft. fst ft = f_id f \<and> snd ft = tid) fts)) rows))
        = {f \<in> set rows. (f_id f, tid) \<in> set fts}"
    by (auto simp: image_iff)
  with Cons.IH show ?case by auto
qed

lemma set_list_files:
  "set (list_files h search_text tag_ids only_tagged root_prefix db) =
   select_listing db `
     {f \<in> set (files db).
        (\<forall>tid \<in> set tag_ids. (f_id f, tid) \<in> set (file_tags db)) \<and>
        build_query_where search_text only_tagged db f \<and>
        (case root_prefix of None \<Rightarrow> True
         | Some rp \<Rightarrow> rp = [] \<or> like_prefix (normalize_path h rp) (f_path f))}"
  by (auto simp: list_files_def Let_def set_join_file_tags join_params_rev split: option.splits)

lemma l_id_select_listing [simp]: "l_id (select_listing db f) = f_id f"
  by (simp add: select_listing_def)

text \<open>
  Claim C4 (tag filter is AND). Every row \<^verbatim>\<open>list_files\<close> returns carries every selected
  tag, whatever the other filters are; and with no other filter the returned ids are
  exactly the ids of the File rows that carry every selected tag.
\<close>

theorem list_files_tags_conjunctive:
  "(\<forall>row \<in> set (list_files h search_text tag_ids only_tagged root_prefix db).
      \<forall>tid \<in> set tag_ids. (l_id row, tid) \<in> set (file_tags db)) \<and>
   l_id ` set (list_files h [] tag_ids False None db) =
     {fid \<in> f_id ` set (files db). \<forall>tid \<in> set tag_ids. (fid, tid) \<in> set (file_tags db)}"
proof
  show "\<forall>row \<in> set (list_files h search_text tag_ids only_tagged root_prefix db).
      \<forall>tid \<in> set tag_ids. (l_id row, tid) \<in> set (file_tags db)"
    by (auto simp: set_list_files)
  show "l_id ` set (list_files h [] tag_ids False None db) =
     {fid \<in> f_id ` set (files db). \<forall>tid \<in> set tag_ids. (fid, tid) \<in> set (file_tags db)}"
    by (auto simp: set_list_files build_query_where_def image_iff)
qed

text \<open>
  The example of the claim: file 1 carries \<^verbatim>\<open>todo\<close>, file 2 both tags, file 3
  \<^verbatim>\<open>later\<close>; filtering by both tags returns file 2 alone.
\<close>

theorem list_files_tags_conjunctive_witness:
  "file_tags demo_catalog = [(1, 1), (2, 1), (2, 2), (3, 2)] \<and>
   list_files demo_host [] [1, 2] False None demo_catalog =
     [\<lparr>l_id = 2, l_path = ''/data/a/y.txt'', l_size = 7, l_mtime = 150,
       l_tags = Some ''todo, later''\<rparr>] \<and>
   (2, 1) \<in> set (file_tags demo_catalog) \<and> (2, 2) \<in> set (file_tags demo_catalog)"
  using list_files_tags_conjunctive [of demo_host "[]" "[1, 2]" False None demo_catalog]
  by (simp add: list_files_def join_params_def build_query_where_def select_listing_def
      tag_names_of_def group_concat_def demo_defs)

section \<open>ensure_tag\<close>

lemma sql_max_Max: "sql_max xs = (if xs = [] then None else Some (Max (set xs)))"
proof (induction xs)
  case Nil
  show ?case by simp
next
  case (Cons x xs)
  then show ?case by (cases "xs = []") (auto simp: max.commute)
qed

lemma next_rowid_fresh: "next_rowid ids \<notin> set ids"
proof (cases "ids = []")
  case True
  then show ?thesis by simp
next
  case False
  have "Max (set ids) + 1 \<notin> set ids"
    using Max_ge[of "set ids" "Max (set ids) + 1"] by auto
  with False show ?thesis by (simp add: next_rowid_def sql_max_Max)
qed

lemma find_absent: "x \<notin> f ` set xs \<Longrightarrow> find (\<lambda>t. f t = x) xs = None"
  by (induction xs) auto

lemma find_present:
  "x \<in> f ` set xs \<Longrightarrow> \<exists>t \<in> set xs. f t = x \<and> find (\<lambda>t. f t = x) xs = Some t"
  by (induction xs) auto

lemma find_append_absent:
  "find P xs = None \<Longrightarrow> find P (xs @ ys) = find P ys"
  by (induction xs) (auto split: if_splits)

lemma tag_id_by_name_append_new:
  "name \<notin> t_name ` set rows \<Longrightarrow>
   tag_id_by_name name (rows @ [\<lparr>t_id = i, t_name = name, t_ord = k\<rparr>]) = Some i"
  by (simp add: tag_id_by_name_def find_append_absent find_absent)

text \<open>
  Claim C9 (\<^verbatim>\<open>ensure_tag\<close>). The name is stripped first. An empty result gives no id
  and the catalog as it was. When a tag of the stripped name exists, its id is returned
  and the catalog, its order value included, is as it was. Otherwise one tag row is
  appended, under an id not in use, with the stripped name and the order value
  \<open>max + 1\<close> of the order values in the table (1 in an empty table), and that id is
  returned.
\<close>

theorem ensure_tag_get_or_create:
  "(strip name = [] \<longrightarrow> ensure_tag name db = (None, db)) \<and>
   (strip name \<noteq> [] \<and> strip name \<in> t_name ` set (tags db) \<longrightarrow>
      snd (ensure_tag name db) = db \<and>
      (\<exists>t \<in> set (tags db). t_name t = strip name \<and> fst (ensure_tag name db) = Some (t_id t))) \<and>
   (strip name \<noteq> [] \<and> strip name \<notin> t_name ` set (tags db) \<longrightarrow>
      (\<exists>new_id. new_id \<notin> t_id ` set (tags db) \<and>
         ensure_tag name db =
           (Some new_id,
            db\<lparr>tags := tags db @
                  [\<lparr>t_id = new_id, t_name = strip name,
                    t_ord = (if tags db = [] then 1 else Max (t_ord ` set (tags db)) + 1)\<rparr>]\<rparr>)))"
proof (intro conjI impI)
  assume "strip name = []"
  then show "ensure_tag name db = (None, db)" by (simp add: ensure_tag_def)
next
  assume a: "strip name \<noteq> [] \<and> strip name \<in> t_name ` set (tags db)"
  then show "snd (ensure_tag name db) = db"
    by (simp add: ensure_tag_def Let_def sql_insert_tag_or_ignore_def)
  from a find_present[of "strip name" t_name "tags db"]
  show "\<exists>t \<in> set (tags db). t_name t = strip name \<and> fst (ensure_tag name db) = Some (t_id t)"
    by (auto simp: ensure_tag_def Let_def sql_insert_tag_or_ignore_def tag_id_by_name_def)
next
  assume a: "strip name \<noteq> [] \<and> strip name \<notin> t_name ` set (tags db)"
  have fresh: "next_rowid (map t_id (tags db)) \<notin> t_id ` set (tags db)"
    using next_rowid_fresh[of "map t_id (tags db)"] by simp
  have "ensure_tag name db =
          (Some (next_rowid (map t_id (tags db))),
           db\<lparr>tags := tags db @
                 [\<lparr>t_id = next_rowid (map t_id (tags db)), t_name = strip name,
                   t_ord = (if tags db = [] then 1 else Max (t_ord ` set (tags db)) + 1)\<rparr>]\<rparr>)"
    using a
    by (simp add: ensure_tag_def Let_def sql_insert_tag_or_ignore_def tag_id_by_name_append_new
        sql_max_Max)
  with fresh show "\<exists>new_id. new_id \<notin> t_id ` set (tags db) \<and>
         ensure_tag name db =
           (Some new_id,
            db\<lparr>tags := tags db @
                  [\<lparr>t_id = new_id, t_name = strip name,
                    t_ord = (if tags db = [] then 1 else Max (t_ord ` set (tags db)) + 1)\<rparr>]\<rparr>)"
    by blast
qed

theorem ensure_tag_get_or_create_witness:
  "strip ''   '' = [] \<and> ensure_tag ''   '' demo_catalog = (None, demo_catalog) \<and>
   strip '' todo '' = ''todo'' \<and> ''todo'' \<in> t_name ` set (tags demo_catalog) \<and>
   ensure_tag '' todo '' demo_catalog = (Some 1, demo_catalog) \<and>
   strip ''urgent '' = ''urgent'' \<and> ''urgent'' \<notin> t_name ` set (tags demo_catalog) \<and>
   ensure_tag ''urgent '' demo_catalog =
     (Some 3, demo_catalog\<lparr>tags := tags demo_catalog @
                 [\<lparr>t_id = 3, t_name = ''urgent'', t_ord = 3\<rparr>]\<rparr>)"
  using ensure_tag_get_or_create [of "''   ''" demo_catalog]
    ensure_tag_get_or_create [of "'' todo ''" demo_catalog]
    ensure_tag_get_or_create [of "''urgent ''" demo_catalog]
  by (simp add: ensure_tag_def strip_def py_isspace_def sql_insert_tag_or_ignore_def
      tag_id_by_name_def next_rowid_def demo_defs)

section \<open>Renaming a tag onto another\<close>

lemma insert_pairs_or_ignore_shape:
  "\<exists>added. insert_pairs_or_ignore cs table = table @ added \<and> set added \<subseteq> set cs \<and>
           set (table @ added) = set table \<union> set cs \<and>
           (distinct table \<longrightarrow> distinct (table @ added))"
proof (induction cs arbitrary: table)
  case Nil
  show ?case by simp
next
  case (Cons c cs)
  show ?case
  proof (cases "c \<in> set table")
    case True
    from Cons.IH[of table] obtain added where
      "insert_pairs_or_ignore cs table = table @ added" "set added \<subseteq> set cs"
      "set (table @ added) = set table \<union> set cs" "distinct table \<longrightarrow> distinct (table @ added)"
      by blast
    with True show ?thesis by (intro exI[of _ added]) auto
  next
    case False
    from Cons.IH[of "table @ [c]"] obtain added where
      "insert_pairs_or_ignore cs (table @ [c]) = (table @ [c]) @ added" "set added \<subseteq> set cs"
      "set ((table @ [c]) @ added) = set (table @ [c]) \<union> set cs"
      "distinct (table @ [c]) \<longrightarrow> distinct ((table @ [c]) @ added)"
      by blast
    with False show ?thesis by (intro exI[of _ "c # added"]) auto
  qed
qed

lemma filter_swap: "filter P (filter Q xs) = filter Q (filter P xs)"
  by (induction xs) auto

lemma tag_id_by_name_Some:
  "tag_id_by_name name rows = Some i \<Longrightarrow> \<exists>t \<in> set rows. t_name t = name \<and> t_id t = i"
  by (induction rows) (auto simp: tag_id_by_name_def split: if_splits)

text \<open>
  Claim C5 (merge on rename). The old tag exists, another tag already bears the new
  name, and the catalog satisfies its schema (unique tag ids and names, unique
  \<open>file_tags\<close> pairs, foreign keys). Then the call succeeds with the merge notice; the
  tag table is the old one without the old tag, so exactly one tag bears the new name;
  the files of that tag are the union of the files of both tags, no pair twice; no tag
  and no association of the old id is left; the File rows are untouched.
\<close>

theorem rename_or_merge_tag_merges:
  assumes nonempty: "new_name \<noteq> []"
    and found: "tag_id_by_name new_name (tags db) = Some new_tid"
    and diff: "new_tid \<noteq> old_tid"
    and old: "old_tid \<in> t_id ` set (tags db)"
    and uniq: "unique_tags db"
    and fk: "fk_ok db"
    and pairs: "distinct (file_tags db)"
  shows "\<exists>db'. rename_or_merge_tag old_tid new_name db = Inr (Some Merged_information, db') \<and>
           tags db' = filter (\<lambda>t. t_id t \<noteq> old_tid) (tags db) \<and>
           map t_id (filter (\<lambda>t. t_name t = new_name) (tags db')) = [new_tid] \<and>
           old_tid \<notin> t_id ` set (tags db') \<and>
           old_tid \<notin> snd ` set (file_tags db') \<and>
           {f. (f, new_tid) \<in> set (file_tags db')} =
             {f. (f, new_tid) \<in> set (file_tags db)} \<union> {f. (f, old_tid) \<in> set (file_tags db)} \<and>
           distinct (file_tags db') \<and>
           files db' = files db"
proof -
  let ?cands = "map (\<lambda>ft. (fst ft, new_tid)) (filter (\<lambda>ft. snd ft = old_tid) (file_tags db))"
  let ?table = "insert_pairs_or_ignore ?cands (file_tags db)"
  from insert_pairs_or_ignore_shape[of ?cands "file_tags db"] pairs
  obtain added where
    tab: "?table = file_tags db @ added" and sub: "set added \<subseteq> set ?cands"
    and st: "set ?table = set (file_tags db) \<union> set ?cands" and dist: "distinct ?table"
    by auto
  from found obtain tn where tn: "tn \<in> set (tags db)" "t_name tn = new_name" "t_id tn = new_tid"
    using tag_id_by_name_Some by blast
  have ok: "fk_row_ok db ft" if "ft \<in> set added" for ft
  proof -
    from that sub obtain f where "ft = (f, new_tid)" "(f, old_tid) \<in> set (file_tags db)"
      by auto
    moreover from this fk have "f \<in> f_id ` set (files db)"
      by (force simp: fk_ok_def)
    ultimately show ?thesis using tn by (auto simp: fk_row_ok_def)
  qed
  have nofail: "\<not> list_ex (\<lambda>ft. \<not> fk_row_ok db ft) (drop (length (file_tags db)) ?table)"
    using ok by (simp add: tab list_ex_iff)
  define db' where "db' = delete_tags_where (\<lambda>t. t_id t = old_tid)
      (db\<lparr>file_tags := filter (\<lambda>ft. snd ft \<noteq> old_tid) ?table\<rparr>)"
  have res: "rename_or_merge_tag old_tid new_name db = Inr (Some Merged_information, db')"
    using nonempty found diff nofail
    by (simp add: rename_or_merge_tag_def Let_def db'_def)
  have tg: "tags db' = filter (\<lambda>t. t_id t \<noteq> old_tid) (tags db)"
    by (simp add: db'_def delete_tags_where_def)
  have ft: "file_tags db' = filter (\<lambda>ft. snd ft \<noteq> old_tid) ?table"
  proof -
    have "t_id ` set (filter (\<lambda>t. t_id t = old_tid) (tags db)) = {old_tid}"
      using old by auto
    then show ?thesis by (simp add: db'_def delete_tags_where_def)
  qed
  have single: "map t_id (filter (\<lambda>t. t_name t = new_name) (tags db')) = [new_tid]"
  proof -
    from uniq have d: "distinct (map t_name (tags db))" by (simp add: unique_tags_def)
    have "filter (\<lambda>t. t_name t = t_name tn) (tags db) = [tn]"
      using d tn(1) by (rule filter_key_singleton)
    then have "filter (\<lambda>t. t_id t \<noteq> old_tid) (filter (\<lambda>t. t_name t = new_name) (tags db)) = [tn]"
      using tn diff by simp
    then have "filter (\<lambda>t. t_name t = new_name) (filter (\<lambda>t. t_id t \<noteq> old_tid) (tags db)) = [tn]"
      by (simp only: filter_swap)
    then show ?thesis using tn by (simp add: tg)
  qed
  have assoc: "{f. (f, new_tid) \<in> set (file_tags db')} =
      {f. (f, new_tid) \<in> set (file_tags db)} \<union> {f. (f, old_tid) \<in> set (file_tags db)}"
    using diff by (auto simp: ft st image_iff)
  have gone: "old_tid \<notin> t_id ` set (tags db')" by (auto simp: tg)
  have gone': "old_tid \<notin> snd ` set (file_tags db')" by (auto simp: ft)
  have dist': "distinct (file_tags db')" using dist by (simp add: ft)
  have same: "files db' = files db" by (simp add: db'_def delete_tags_where_def)
  show ?thesis
    by (rule exI[of _ db']) (intro conjI res tg single gone gone' assoc dist' same)
qed


text \<open>
  The example of the claim: \<^verbatim>\<open>todo\<close> (id 1) is on files 1 and 2, \<^verbatim>\<open>later\<close> (id 2) on
  files 2 and 3; renaming \<^verbatim>\<open>todo\<close> to \<^verbatim>\<open>later\<close> leaves the one tag \<^verbatim>\<open>later\<close> on
  files 1, 2 and 3.
\<close>

theorem rename_or_merge_tag_merges_witness:
  "''later'' \<noteq> [] \<and> tag_id_by_name ''later'' (tags demo_catalog) = Some 2 \<and>
   1 \<in> t_id ` set (tags demo_catalog) \<and>
   unique_tags demo_catalog \<and> fk_ok demo_catalog \<and> distinct (file_tags demo_catalog) \<and>
   {f. (f, 1) \<in> set (file_tags demo_catalog)} = {1, 2} \<and>
   {f. (f, 2) \<in> set (file_tags demo_catalog)} = {2, 3} \<and>
   (\<exists>db'. rename_or_merge_tag 1 ''later'' demo_catalog = Inr (Some Merged_information, db') \<and>
          map t_name (tags db') = [''later''] \<and>
          {f. (f, 2) \<in> set (file_tags db')} = {1, 2, 3} \<and>
          {f. (f, 1) \<in> set (file_tags db')} = {})"
proof -
  have p1: "''later'' \<noteq> []" by simp
  have p2: "tag_id_by_name ''later'' (tags demo_catalog) = Some 2"
    by (simp add: tag_id_by_name_def demo_defs)
  have p3: "(2::int) \<noteq> 1" by simp
  have p4: "1 \<in> t_id ` set (tags demo_catalog)" by (simp add: demo_defs)
  have p5: "unique_tags demo_catalog" by (simp add: unique_tags_def demo_defs)
  have p6: "fk_ok demo_catalog" by (simp add: fk_ok_def demo_defs)
  have p7: "distinct (file_tags demo_catalog)" by (simp add: demo_defs)
  have a1: "{f. (f, 1) \<in> set (file_tags demo_catalog)} = {1, 2}"
    by (auto simp: demo_defs)
  have a2: "{f. (f, 2) \<in> set (file_tags demo_catalog)} = {2, 3}"
    by (auto simp: demo_defs)
  from rename_or_merge_tag_merges [OF p1 p2 p3 p4 p5 p6 p7]
  obtain db' where r: "rename_or_merge_tag 1 ''later'' demo_catalog = Inr (Some Merged_information, db')"
    and t: "tags db' = filter (\<lambda>t. t_id t \<noteq> 1) (tags demo_catalog)"
    and g: "1 \<notin> snd ` set (file_tags db')"
    and u: "{f. (f, 2) \<in> set (file_tags db')} =
             {f. (f, 2) \<in> set (file_tags demo_catalog)} \<union> {f. (f, 1) \<in> set (file_tags demo_catalog)}"
    by blast
  have t': "map t_name (tags db') = [''later'']" by (simp add: t demo_defs)
  have u': "{f. (f, 2) \<in> set (file_tags db')} = {1, 2, 3}" using u a1 a2 by auto
  have g': "{f. (f, 1) \<in> set (file_tags db')} = {}" using g by (auto simp: image_iff)
  have ex: "\<exists>db'. rename_or_merge_tag 1 ''later'' demo_catalog = Inr (Some Merged_information, db') \<and>
          map t_name (tags db') = [''later''] \<and>
          {f. (f, 2) \<in> set (file_tags db')} = {1, 2, 3} \<and>
          {f. (f, 1) \<in> set (file_tags db')} = {}"
    by (rule exI[of _ db']) (intro conjI r t' u' g')
  show ?thesis
    by (intro conjI p1 p2 p4 p5 p6 p7 a1 a2 ex)
qed

section \<open>The walk: completion signal and failing upserts\<close>


lemma upsert_calls_append [simp]: "upsert_calls (xs @ ys) = upsert_calls xs @ upsert_calls ys"
  by (induction xs rule: upsert_calls.induct) auto

lemma progress_ticks_append [simp]:
  "progress_ticks (xs @ ys) = progress_ticks xs @ progress_ticks ys"
  by (induction xs rule: progress_ticks.induct) auto

lemma count_finished_append [simp]:
  "count_list (xs @ ys) Scan_finished = count_list xs Scan_finished + count_list ys Scan_finished"
  by (induction xs) auto

lemma ticks_from_0 [simp]: "ticks_from tick shown n 0 = []"
  by (simp add: ticks_from_def)

lemma ticks_from_Suc:
  "ticks_from tick shown n (Suc len) =
   (if tick (Suc n) then [Progress_tick (Suc n) shown] else []) @ ticks_from tick shown (Suc n) len"
proof -
  have "[Suc n..<Suc (n + Suc len)] = Suc n # [Suc (Suc n)..<Suc (Suc n + len)]"
    by (simp add: upt_conv_Cons del: upt_Suc)
  then show ?thesis by (simp add: ticks_from_def del: upt_Suc)
qed


lemma ticks_from_no_finish [simp]: "count_list (ticks_from tick shown n len) Scan_finished = 0"
  by (induction len arbitrary: n) (auto simp: ticks_from_Suc)



lemma upsert_calls_map [simp]:
  "upsert_calls (map (\<lambda>p. Upsert_call p (f p)) ps) = map (\<lambda>p. (p, f p)) ps"
  by (induction ps) auto



lemma fold_slot_finished [simp]: "fold slot_scan_running (sigs @ [Scan_finished]) b = False"
  by simp








section \<open>Tags of files that stay on disk\<close>




















section \<open>Wildcards in a root prefix\<close>

lemma replace_char_Cons:
  "replace_char c rep (x # xs) = (if x = c then rep else [x]) @ replace_char c rep xs"
  by (simp add: replace_char_def)

lemma replace_char_append:
  "replace_char c rep (xs @ ys) = replace_char c rep xs @ replace_char c rep ys"
  by (simp add: replace_char_def)

lemma replace_char_Nil [simp]: "replace_char c rep [] = []"
  by (simp add: replace_char_def)

lemma like_escape_Nil [simp]: "like_escape [] = []"
  by (simp add: like_escape_def replace_char_def)

lemma like_escape_Cons:
  "like_escape (c # cs) =
     (if c = backslash \<or> c = CHR ''%'' \<or> c = CHR ''_'' then [backslash, c] else [c]) @ like_escape cs"
  by (simp add: like_escape_def replace_char_Cons replace_char_append backslash_def)

text \<open>With the escaping of \<^verbatim>\<open>count_files_under\<close> the query is the prefix test, for every root.\<close>

lemma like_escaped_prefix:
  "sqlite_like (Some backslash) (like_escape rt @ ''%'') p = prefix_nocase rt p"
proof (induction rt p rule: prefix_nocase.induct)
  case (1 p)
  show ?case using like_percent_all[of "Some backslash" p] by simp
next
  case (2 c cs)
  show ?case by (simp add: like_escape_Cons backslash_def)
next
  case (3 c cs d ds)
  then show ?case by (auto simp: like_escape_Cons backslash_def)
qed

lemma count_files_under_exact:
  "count_files_under h rt db =
   length (filter (\<lambda>r. prefix_nocase (normalize_path h rt) (f_path r)) (files db))"
  by (simp add: count_files_under_def Let_def like_escaped_prefix)

text \<open>
  Claim C6 says that every query by root prefix escapes \<^verbatim>\<open>%\<close> and \<^verbatim>\<open>_\<close>. Only
  \<^verbatim>\<open>count_files_under\<close> does. For the root \<^verbatim>\<open>/data/a_b\<close> and a catalog whose one
  File row is \<^verbatim>\<open>/data/aXb/f.txt\<close>, which does not start with the root:
  \<^verbatim>\<open>count_files_under\<close> counts no row, but the fingerprint query counts the row, the
  root filter of \<^verbatim>\<open>list_files\<close> lists it, \<^verbatim>\<open>remove_missing_under\<close> deletes it (the file
  is not on disk), and so does \<^verbatim>\<open>remove_root\<close>.
\<close>

theorem unescaped_prefix_queries:
  "\<not> prefix_nocase ''/data/a_b'' ''/data/aXb/f.txt'' \<and>
   map f_path (files wildcard_catalog) = [''/data/aXb/f.txt''] \<and>
   count_files_under demo_host ''/data/a_b'' wildcard_catalog = 0 \<and>
   db_count_and_max_mtime_under demo_host ''/data/a_b'' wildcard_catalog = (1, 5) \<and>
   map l_path (list_files demo_host [] [] False (Some ''/data/a_b'') wildcard_catalog) =
     [''/data/aXb/f.txt''] \<and>
   remove_missing_under demo_host ''/data/a_b'' wildcard_catalog =
     (wildcard_catalog\<lparr>files := []\<rparr>, 1) \<and>
   files (remove_root demo_host ''/data/a_b'' wildcard_catalog) = []"
proof -
  have n: "normalize_path demo_host ''/data/a_b'' = ''/data/a_b''" by (simp add: demo_defs)
  have l: "like_prefix ''/data/a_b'' ''/data/aXb/f.txt''" by (simp add: like_defs)
  have p: "\<not> prefix_nocase ''/data/a_b'' ''/data/aXb/f.txt''" by (simp add: like_defs)
  have f: "files wildcard_catalog =
      [\<lparr>f_id = 1, f_path = ''/data/aXb/f.txt'', f_size = 1, f_mtime = 5, f_hash = None\<rparr>]"
    "file_tags wildcard_catalog = []"
    by (simp_all add: wildcard_catalog_def)
  have e: "\<not> path_exists demo_host ''/data/aXb/f.txt''" by (simp add: demo_host_def)
  have 1: "count_files_under demo_host ''/data/a_b'' wildcard_catalog = 0"
    by (simp add: count_files_under_exact n f like_defs)
  have 2: "db_count_and_max_mtime_under demo_host ''/data/a_b'' wildcard_catalog = (1, 5)"
    by (simp add: db_count_and_max_mtime_under_def n f l)
  have 3: "map l_path (list_files demo_host [] [] False (Some ''/data/a_b'') wildcard_catalog) =
     [''/data/aXb/f.txt'']"
    by (simp add: list_files_def join_params_def build_query_where_def select_listing_def n f l)
  have 4: "remove_missing_under demo_host ''/data/a_b'' wildcard_catalog =
     (wildcard_catalog\<lparr>files := []\<rparr>, 1)"
    by (simp add: remove_missing_under_def n f l e delete_files_where_def wildcard_catalog_def)
  have 5: "files (remove_root demo_host ''/data/a_b'' wildcard_catalog) = []"
    by (simp add: files_remove_root n f l)
  have 0: "map f_path (files wildcard_catalog) = [''/data/aXb/f.txt'']" by (simp add: f)
  show ?thesis by (intro conjI p 0 1 2 3 4 5)
qed

section \<open>app.py against tagfile-c.py\<close>

text \<open>
  The methods of \<^verbatim>\<open>DBManager\<close> against the functions of \<^verbatim>\<open>app.py\<close>: upsert, pruning,
  get-or-create of a tag, listing and the short-circuit test agree on every input.
\<close>

lemma dbm_upsert_file_eq: "dbm_upsert_file h p db = upsert_file h p db"
  by (auto simp: dbm_upsert_file_def upsert_file_def Let_def split: option.splits)

lemma dbm_remove_missing_under_eq: "dbm_remove_missing_under h rt db = remove_missing_under h rt db"
  by (simp add: dbm_remove_missing_under_def remove_missing_under_def)

lemma dbm_ensure_tag_eq: "dbm_ensure_tag name db = ensure_tag name db"
  by (simp add: dbm_ensure_tag_def ensure_tag_def)

lemma dbm_list_files_eq:
  "dbm_list_files h search_text tag_ids only_tagged root_prefix db =
   list_files h search_text tag_ids only_tagged root_prefix db"
proof -
  have bq: "build_query_where search_text only_tagged db =
      (\<lambda>f. (search_text = [] \<or> sqlite_like None (''%'' @ search_text @ ''%'') (f_path f)) \<and>
           (\<not> only_tagged \<or> f_id f \<in> fst ` set (file_tags db)))"
    by (rule ext) (simp add: build_query_where_def del: sqlite_like.simps)
  have "filter (\<lambda>f. (search_text = [] \<or> sqlite_like None (''%'' @ search_text @ ''%'') (f_path f)) \<and>
                    (\<not> only_tagged \<or> f_id f \<in> fst ` set (file_tags db)) \<and>
                    (case root_prefix of None \<Rightarrow> True
                     | Some rp \<Rightarrow> rp = [] \<or> like_prefix (normalize_path h rp) (f_path f))) xs =
        (case root_prefix of
           None \<Rightarrow> filter (build_query_where search_text only_tagged db) xs
         | Some rp \<Rightarrow>
             if rp = [] then filter (build_query_where search_text only_tagged db) xs
             else filter (\<lambda>f. like_prefix (normalize_path h rp) (f_path f))
                    (filter (build_query_where search_text only_tagged db) xs))" for xs
    by (cases root_prefix) (simp_all add: bq del: sqlite_like.simps)
  then show ?thesis by (simp add: dbm_list_files_def list_files_def Let_def)
qed

lemma disk_stats_loop_eq:
  "disk_stats_loop h ws tot max_m =
   count_and_max_loop h (concat (map (\<lambda>(dp, fns). map (path_join h dp) fns) ws)) tot max_m"
proof (induction ws arbitrary: tot max_m)
  case Nil
  show ?case by simp
next
  case (Cons w ws)
  obtain dp fns where w: "w = (dp, fns)" by (cases w)
  have step: "count_and_max_loop h (ps @ qs) t m =
        count_and_max_loop h qs (t + length ps) (max_mtime_loop h ps m)" for ps qs t m
    by (induction ps arbitrary: t m) auto
  show ?case by (simp add: w Cons.IH step)
qed

lemma dbm_fingerprint_current_eq:
  "rt \<noteq> [] \<Longrightarrow> dbm_fingerprint_current h rt db = fingerprint_current h rt db"
  by (simp add: dbm_fingerprint_current_def fingerprint_current_def dbm_count_and_stats_def
      walk_count_and_max_mtime_def db_count_and_max_mtime_under_def walk_paths_def
      disk_stats_loop_eq Let_def)

text \<open>
  Claim C7 says that the two files agree on every listed operation, the count of files
  under a root among them. \<^verbatim>\<open>app.py\<close> counts with \<^verbatim>\<open>count_files_under\<close>, which
  escapes the prefix; \<^verbatim>\<open>tagfile-c.py\<close> counts with \<^verbatim>\<open>count_and_stats(root)\<close>, which
  does not. For the root \<^verbatim>\<open>/data/a_b\<close> and the one File row \<^verbatim>\<open>/data/aXb/f.txt\<close> the
  first counts 0 and the second 1.
\<close>

theorem count_under_root_differs:
  "map f_path (files wildcard_catalog) = [''/data/aXb/f.txt''] \<and>
   count_files_under demo_host ''/data/a_b'' wildcard_catalog = 0 \<and>
   fst (dbm_count_and_stats demo_host (Some ''/data/a_b'') False wildcard_catalog) = 1"
proof -
  have n: "normalize_path demo_host ''/data/a_b'' = ''/data/a_b''" by (simp add: demo_defs)
  have l: "like_prefix ''/data/a_b'' ''/data/aXb/f.txt''" by (simp add: like_defs)
  have p: "\<not> prefix_nocase ''/data/a_b'' ''/data/aXb/f.txt''" by (simp add: like_defs)
  have f: "files wildcard_catalog =
      [\<lparr>f_id = 1, f_path = ''/data/aXb/f.txt'', f_size = 1, f_mtime = 5, f_hash = None\<rparr>]"
    by (simp add: wildcard_catalog_def)
  show ?thesis
    by (simp add: count_files_under_exact dbm_count_and_stats_def n l f same_char_nocase_def sqlite_tolower_def)
qed

end
